theory Spec2Isabelle
  imports Complex_Main
begin

section \<open>Python and NumPy primitives used by the tools\<close>

text \<open>
  Samples are modelled over exact real and complex numbers: \<open>np.float32\<close>, \<open>np.float64\<close>
  and \<open>np.complex64\<close> values are the reals and complex numbers they denote, and the
  rounding of \<open>astype\<close> and of each arithmetic operation is not represented. Infinities and
  NaN are outside the model. Exceptions are values of \<open>error\<close>.
\<close>

datatype error =
    ValueError | KeyError | TypeError | AttributeError
  | NotImplementedError | CalledProcessError

text \<open>\<open>int(x)\<close> on a float: truncation, as Python's \<open>float.__int__\<close> does it.\<close>

definition py_int :: "real \<Rightarrow> int" where
  "py_int x = (if x < 0 then \<lceil>x\<rceil> else \<lfloor>x\<rfloor>)"

text \<open>\<open>s.split(c)\<close> with a one-character separator: never returns the empty list.\<close>

fun split_on :: "char \<Rightarrow> string \<Rightarrow> string list" where
  "split_on c [] = [[]]"
| "split_on c (x # xs) =
     (if x = c then [] # split_on c xs
      else (case split_on c xs of
              [] \<Rightarrow> [[x]]
            | w # ws \<Rightarrow> (x # w) # ws))"

text \<open>
  The bounds of \<open>a[start:stop]\<close> on a sequence of length \<open>n\<close>: a negative bound counts
  from the end, and both bounds are clamped to \<open>0..n\<close>.
\<close>

definition slice_bound :: "nat \<Rightarrow> int \<Rightarrow> nat" where
  "slice_bound n i = (if i < 0 then nat (max 0 (i + int n)) else min (nat i) n)"

definition slice_get :: "'a list \<Rightarrow> int \<Rightarrow> int \<Rightarrow> 'a list" where
  "slice_get xs a b =
     (let lo = slice_bound (length xs) a; hi = slice_bound (length xs) b
      in take (hi - lo) (drop lo xs))"

text \<open>
  \<open>a[start:stop] = vs\<close> on an array, for \<open>vs\<close> of the length of the slice (the only use in
  the source assigns values computed from the same slice).
\<close>

definition slice_set :: "'a list \<Rightarrow> int \<Rightarrow> int \<Rightarrow> 'a list \<Rightarrow> 'a list" where
  "slice_set xs a b vs =
     (let lo = slice_bound (length xs) a
      in take lo xs @ vs @ drop (lo + length vs) xs)"

text \<open>
  What the generator takes from its libraries: \<open>float(s)\<close> on a string (\<open>None\<close> is the
  ValueError), \<open>np.random.seed\<close> as the generator state it installs, and one draw of
  \<open>np.random.normal\<close> as a function of that state.
\<close>

record 'g env =
  py_float :: "string \<Rightarrow> real option"
  seed_rng :: "nat \<Rightarrow> 'g"
  normal1 :: "'g \<Rightarrow> real \<times> 'g"

text \<open>
  \<open>np.random.seed(s)\<close> replaces the state of the process-wide generator, whatever it was.
\<close>

definition np_random_seed :: "'g env \<Rightarrow> nat \<Rightarrow> 'g \<Rightarrow> 'g" where
  "np_random_seed e s g0 = seed_rng e s"

fun normal :: "'g env \<Rightarrow> 'g \<Rightarrow> nat \<Rightarrow> real list \<times> 'g" where
  "normal e g 0 = ([], g)"
| "normal e g (Suc k) =
     (case normal1 e g of (x, g') \<Rightarrow>
        (case normal e g' k of (xs, g'') \<Rightarrow> (x # xs, g'')))"

section \<open>simulated\_iq\_generator.py\<close>

text \<open>\<open>np.exp(2j * np.pi * freq * t)\<close> is \<open>cis\<close> of the phase.\<close>

definition mk_tone :: "real \<Rightarrow> real \<Rightarrow> real \<Rightarrow> real list \<Rightarrow> complex list" where
  "mk_tone freq amp samplerate t = map (\<lambda>x. of_real amp * cis (2 * pi * freq * x)) t"

definition mk_noise :: "'g env \<Rightarrow> 'g \<Rightarrow> real \<Rightarrow> nat \<Rightarrow> complex list \<times> 'g" where
  "mk_noise e g sigma size' =
     (case normal e g size' of (re, g1) \<Rightarrow>
        (case normal e g1 size' of (im, g2) \<Rightarrow>
           (map2 (\<lambda>a b. of_real sigma * (of_real a + \<i> * of_real b)) re im, g2)))"

definition mk_burst ::
  "real list \<Rightarrow> real \<Rightarrow> real \<Rightarrow> real \<Rightarrow> real \<Rightarrow> real \<Rightarrow> real \<Rightarrow> complex list" where
  "mk_burst t samplerate burst_start burst_dur burst_rate tone_freq amp =
     (let start_idx = py_int (burst_start * samplerate);
          dur_idx = py_int (burst_dur * samplerate);
          burst = replicate (length t) 0
      in if start_idx < int (length t) then
           (let end_idx = min (int (length t)) (start_idx + dur_idx);
                tt = slice_get t start_idx end_idx
            in if tone_freq = 0 then
                 slice_set burst start_idx end_idx
                   (map (\<lambda>x. of_real amp * cis (2 * pi * burst_rate * x)) tt)
               else slice_set burst start_idx end_idx (mk_tone tone_freq amp samplerate tt))
         else burst)"

fun parse_tone :: "'g env \<Rightarrow> string \<Rightarrow> error + (real \<times> real)" where
  "parse_tone e s =
     (case split_on (CHR '':'') s of
        [] \<Rightarrow> Inl ValueError
      | p0 # rest \<Rightarrow>
          (case py_float e p0 of
             None \<Rightarrow> Inl ValueError
           | Some freq \<Rightarrow>
               (case rest of
                  [] \<Rightarrow> Inr (freq, 1)
                | p1 # _ \<Rightarrow>
                    (case py_float e p1 of
                       None \<Rightarrow> Inl ValueError
                     | Some amp \<Rightarrow> Inr (freq, amp)))))"

fun parse_tones_loop :: "'g env \<Rightarrow> string list \<Rightarrow> error + (real \<times> real) list" where
  "parse_tones_loop e [] = Inr []"
| "parse_tones_loop e (s # ss) =
     (if s = [] then parse_tones_loop e ss
      else (case parse_tone e s of
              Inl err \<Rightarrow> Inl err
            | Inr fa \<Rightarrow>
                (case parse_tones_loop e ss of
                   Inl err \<Rightarrow> Inl err
                 | Inr rest \<Rightarrow> Inr (fa # rest))))"

definition parse_tones :: "'g env \<Rightarrow> string \<Rightarrow> error + (real \<times> real) list" where
  "parse_tones e specs =
     (if specs = [] then Inr [] else parse_tones_loop e (split_on (CHR '','') specs))"

text \<open>The parsed command line of the generator.\<close>

record args =
  duration :: real
  samplerate :: real
  tones :: string
  noise :: real
  burst :: string
  out :: string
  seed :: int

text \<open>\<open>iq += x\<close> on arrays of one length.\<close>

definition add_arrays :: "complex list \<Rightarrow> complex list \<Rightarrow> complex list" where
  "add_arrays iq x = map2 (+) iq x"

text \<open>The loop of \<open>main\<close> over the parsed tones.\<close>

fun add_tones :: "(real \<times> real) list \<Rightarrow> real \<Rightarrow> real list \<Rightarrow> complex list \<Rightarrow> complex list" where
  "add_tones [] sr t iq = iq"
| "add_tones ((freq, amp) # rest) sr t iq =
     add_tones rest sr t (add_arrays iq (mk_tone freq amp sr t))"

text \<open>
  Lines 65 to 76 of \<open>main\<close>, started with the process-wide generator in state \<open>g0\<close>:
  seeding (NumPy accepts seeds from 0 to \<open>2^32 - 1\<close> only), the time axis, the zero
  array (\<open>np.zeros\<close> refuses a negative length), the tones and the noise. The result is
  the time axis with the accumulator.
\<close>

definition baseline :: "'g env \<Rightarrow> args \<Rightarrow> 'g \<Rightarrow> error + (real list \<times> complex list)" where
  "baseline e a g0 =
     (if seed a < 0 \<or> 2 ^ 32 \<le> seed a then Inl ValueError
      else
        (let g = np_random_seed e (nat (seed a)) g0;
             sr = samplerate a;
             n = \<lceil>duration a * sr\<rceil>;
             t = map (\<lambda>k. real k / sr) [0 ..< nat n]
         in if n < 0 then Inl ValueError
            else
              (case parse_tones e (tones a) of
                 Inl err \<Rightarrow> Inl err
               | Inr tns \<Rightarrow>
                   (let iq = add_tones tns sr t (replicate (nat n) 0)
                    in if noise a \<noteq> 0 \<and> noise a > 0
                       then Inr (t, add_arrays iq (fst (mk_noise e g (noise a) (nat n))))
                       else Inr (t, iq)))))"

text \<open>Lines 78 to 86: the burst, when the option is a non-empty string.\<close>

definition add_burst :: "'g env \<Rightarrow> args \<Rightarrow> real list \<Rightarrow> complex list \<Rightarrow> error + complex list" where
  "add_burst e a t iq =
     (if burst a \<noteq> [] then
        (case split_on (CHR '':'') (burst a) of
           p0 # p1 # p2 # _ \<Rightarrow>
             (case py_float e p0 of
                None \<Rightarrow> Inl ValueError
              | Some burst_start \<Rightarrow>
                  (case py_float e p1 of
                     None \<Rightarrow> Inl ValueError
                   | Some burst_dur \<Rightarrow>
                       (case py_float e p2 of
                          None \<Rightarrow> Inl ValueError
                        | Some burst_rate \<Rightarrow>
                            Inr (add_arrays iq
                                  (mk_burst t (samplerate a) burst_start burst_dur burst_rate 0 1)))))
         | _ \<Rightarrow> Inr iq)
      else Inr iq)"

text \<open>\<open>np.max(np.abs(iq))\<close>, which the source takes of an array with a non-zero sample only.\<close>

definition peak :: "complex list \<Rightarrow> real" where
  "peak iq = Max (set (map cmod iq))"

text \<open>Lines 88 to 91: the amplitude limiter.\<close>

definition limiter :: "complex list \<Rightarrow> complex list" where
  "limiter iq =
     (let max_amp = (if list_ex (\<lambda>z. z \<noteq> 0) iq then peak iq else 1)
      in if max_amp > 1 then map (\<lambda>z. z / of_real max_amp) iq else iq)"

text \<open>Lines 65 to 91: the sample sequence that \<open>main\<close> hands to the serialiser.\<close>

definition synthesize :: "'g env \<Rightarrow> args \<Rightarrow> 'g \<Rightarrow> error + complex list" where
  "synthesize e a g0 =
     (case baseline e a g0 of
        Inl err \<Rightarrow> Inl err
      | Inr (t, iq) \<Rightarrow>
          (case add_burst e a t iq of
             Inl err \<Rightarrow> Inl err
           | Inr iq' \<Rightarrow> Inr (limiter iq')))"

subsection \<open>Files and serialisation\<close>

text \<open>
  A value loaded from YAML, which is also what \<open>json.dump\<close> writes back: the manifest of
  the orchestrator is one of these, and a dictionary keeps the order of its keys.
\<close>

datatype yaml =
    YNull | YBool bool | YInt int | YFloat real | YStr string
  | YList "yaml list" | YDict "(string \<times> yaml) list"

text \<open>The sidecar record \<open>meta\<close> of the generator, field by field.\<close>

record metadata =
  generated_at :: string
  duration_s :: real
  samplerate_hz :: real
  meta_tones :: "(real \<times> real) list"
  noise_sigma :: real
  burst_spec :: string
  meta_seed :: int
  meta_file :: string
  meta_note :: string

text \<open>
  What a file holds: the float32 values of a raw IQ file in file order, the array of a
  \<open>.npy\<close> file, a sidecar, or the run record of the orchestrator (manifest, \<open>run_at\<close>,
  \<open>note\<close>).
\<close>

datatype content =
    Interleaved "real list"
  | Npy "complex list"
  | MetaJson metadata
  | RunMetaJson yaml string string

text \<open>
  The file system: the directories that exist and the files with their contents, by path.
  Paths are compared as strings, and a failing system call (permissions, a full disk) is
  not modelled: every write and every \<open>makedirs\<close> succeeds.
\<close>

record fs =
  dirs :: "string set"
  files :: "string \<rightharpoonup> content"

definition rstrip_slash :: "string \<Rightarrow> string" where
  "rstrip_slash p = rev (dropWhile (\<lambda>c. c = CHR ''/'') (rev p))"

text \<open>\<open>posixpath.split\<close>: the text up to and with the last slash, and the text after it.\<close>

definition path_head :: "string \<Rightarrow> string" where
  "path_head p = rev (dropWhile (\<lambda>c. c \<noteq> CHR ''/'') (rev p))"

definition basename :: "string \<Rightarrow> string" where
  "basename p = rev (takeWhile (\<lambda>c. c \<noteq> CHR ''/'') (rev p))"

definition dirname :: "string \<Rightarrow> string" where
  "dirname p =
     (let head = path_head p
      in if head \<noteq> [] \<and> rstrip_slash head \<noteq> [] then rstrip_slash head else head)"

text \<open>
  \<open>os.makedirs(p, exist_ok=True)\<close>: the directory and every missing ancestor, an ancestor
  being the text before a slash that starts a run of slashes.
\<close>

definition ancestors :: "string \<Rightarrow> string list" where
  "ancestors p =
     map (\<lambda>k. take k p)
       (filter (\<lambda>k. p ! k = CHR ''/'' \<and> p ! (k - 1) \<noteq> CHR ''/'') [1 ..< length p])"

definition makedirs :: "string \<Rightarrow> fs \<Rightarrow> fs" where
  "makedirs p s = s\<lparr>dirs := dirs s \<union> set (ancestors p) \<union> {p}\<rparr>"

definition write_file :: "string \<Rightarrow> content \<Rightarrow> fs \<Rightarrow> fs" where
  "write_file p c s = s\<lparr>files := (files s)(p \<mapsto> c)\<rparr>"

definition endswith :: "string \<Rightarrow> string \<Rightarrow> bool" where
  "endswith s suf = (length suf \<le> length s \<and> drop (length s - length suf) s = suf)"

text \<open>
  \<open>np.empty(k)\<close> returns \<open>k\<close> cells of whatever the allocator left there: \<open>mem\<close> is that
  content, cell by cell.
\<close>

definition np_empty :: "(nat \<Rightarrow> real) \<Rightarrow> nat \<Rightarrow> real list" where
  "np_empty mem k = map mem [0 ..< k]"

text \<open>\<open>xs[start::2] = vs\<close>, for \<open>vs\<close> as long as the strided slice.\<close>

fun set_stride2 :: "'a list \<Rightarrow> nat \<Rightarrow> 'a list \<Rightarrow> 'a list" where
  "set_stride2 xs start [] = xs"
| "set_stride2 xs start (v # vs) = set_stride2 (xs[start := v]) (start + 2) vs"

text \<open>
  Lines 111 to 115. The parts of a \<open>complex64\<close> sample are float32 values already, so
  \<open>astype(np.float32)\<close> leaves them as they are.
\<close>

definition interleave :: "(nat \<Rightarrow> real) \<Rightarrow> complex list \<Rightarrow> real list" where
  "interleave mem iq =
     (let iq_i = map Re iq;
          iq_q = map Im iq;
          interleaved = np_empty mem (length iq_i + length iq_q)
      in set_stride2 (set_stride2 interleaved 0 iq_i) 1 iq_q)"

definition safety_note :: string where
  "safety_note = ''Simulated IQ for safe, in-cage or offline analysis only. Do not transmit.''"

text \<open>
  \<open>main\<close> of the generator, on the parsed arguments: \<open>now\<close> is the clock reading that
  becomes \<open>generated_at\<close>, \<open>mem\<close> the uninitialised memory, \<open>g0\<close> the state of the random
  generator at start. The result is the exception raised, if any, with the file system left
  behind. The tone list of the sidecar is the list parsed once in the source; here it is
  parsed again, and that succeeds wherever \<open>synthesize\<close> did.
\<close>

definition main :: "'g env \<Rightarrow> string \<Rightarrow> (nat \<Rightarrow> real) \<Rightarrow> 'g \<Rightarrow> args \<Rightarrow> fs \<Rightarrow> error option \<times> fs" where
  "main e now mem g0 a s =
     (case synthesize e a g0 of
        Inl err \<Rightarrow> (Some err, s)
      | Inr iq \<Rightarrow>
          (let s1 = makedirs (if dirname (out a) \<noteq> [] then dirname (out a) else ''.'') s;
               meta = \<lparr>generated_at = now @ ''Z'',
                       duration_s = duration a,
                       samplerate_hz = samplerate a,
                       meta_tones = (case parse_tones e (tones a) of Inl _ \<Rightarrow> [] | Inr tns \<Rightarrow> tns),
                       noise_sigma = noise a,
                       burst_spec = burst a,
                       meta_seed = seed a,
                       meta_file = basename (out a),
                       meta_note = safety_note\<rparr>;
               s2 = (if endswith (out a) ''.npy'' then write_file (out a) (Npy iq) s1
                     else write_file (out a) (Interleaved (interleave mem iq)) s1);
               meta_path = out a @ ''.meta.json''
           in (None, write_file meta_path (MetaJson meta) s2)))"

text \<open>
  Reading a raw IQ file back, as the specification describes it: consecutive pairs of values
  are the I and Q parts of consecutive samples.
\<close>

fun deinterleave :: "real list \<Rightarrow> complex list" where
  "deinterleave (i # q # rest) = Complex i q # deinterleave rest"
| "deinterleave _ = []"

section \<open>orchestrater.py\<close>

text \<open>
  What the orchestrator takes from outside: \<open>str(v)\<close> and the f-string rendering of a value,
  \<open>int(s)\<close> on a string (\<open>None\<close> is the ValueError), \<open>v.__hash__()\<close> (\<open>None\<close> for an
  unhashable value), the environment variables, and what a child process does to the file
  system together with whether it exited with status 0.
\<close>

record oenv =
  py_str :: "yaml \<Rightarrow> string"
  py_int_str :: "string \<Rightarrow> int option"
  py_hash :: "yaml \<Rightarrow> int option"
  getenv :: "string \<rightharpoonup> string"
  subprocess :: "string list \<Rightarrow> fs \<Rightarrow> bool \<times> fs"

text \<open>The state the orchestrator acts on: the file system and the child processes started.\<close>

record world =
  w_fs :: fs
  calls :: "string list list"

datatype outcome = Raised error | Rejected | Finished

definition bind_e :: "error + 'a \<Rightarrow> ('a \<Rightarrow> error + 'b) \<Rightarrow> error + 'b" where
  "bind_e m f = (case m of Inl err \<Rightarrow> Inl err | Inr v \<Rightarrow> f v)"

text \<open>\<open>d[k]\<close> with a string key; only a dictionary can be indexed by one.\<close>

fun dict_item :: "yaml \<Rightarrow> string \<Rightarrow> error + yaml" where
  "dict_item (YDict kvs) k = (case map_of kvs k of None \<Rightarrow> Inl KeyError | Some v \<Rightarrow> Inr v)"
| "dict_item _ k = Inl TypeError"

text \<open>\<open>d.get(k, default)\<close>; only a dictionary has the method.\<close>

fun dict_get :: "yaml \<Rightarrow> string \<Rightarrow> yaml \<Rightarrow> error + yaml" where
  "dict_get (YDict kvs) k dflt = (case map_of kvs k of None \<Rightarrow> Inr dflt | Some v \<Rightarrow> Inr v)"
| "dict_get _ k dflt = Inl AttributeError"

fun truthy :: "yaml \<Rightarrow> bool" where
  "truthy YNull = False"
| "truthy (YBool b) = b"
| "truthy (YInt i) = (i \<noteq> 0)"
| "truthy (YFloat r) = (r \<noteq> 0)"
| "truthy (YStr s) = (s \<noteq> [])"
| "truthy (YList xs) = (xs \<noteq> [])"
| "truthy (YDict kvs) = (kvs \<noteq> [])"

text \<open>What a \<open>for\<close> over the value yields.\<close>

fun py_iter :: "yaml \<Rightarrow> error + yaml list" where
  "py_iter (YList xs) = Inr xs"
| "py_iter (YStr s) = Inr (map (\<lambda>c. YStr [c]) s)"
| "py_iter (YDict kvs) = Inr (map (\<lambda>kv. YStr (fst kv)) kvs)"
| "py_iter _ = Inl TypeError"

text \<open>\<open>int(v)\<close>.\<close>

fun py_int_of :: "oenv \<Rightarrow> yaml \<Rightarrow> error + int" where
  "py_int_of e (YInt i) = Inr i"
| "py_int_of e (YFloat r) = Inr (py_int r)"
| "py_int_of e (YBool b) = Inr (if b then 1 else 0)"
| "py_int_of e (YStr s) = (case py_int_str e s of None \<Rightarrow> Inl ValueError | Some i \<Rightarrow> Inr i)"
| "py_int_of e _ = Inl TypeError"

fun join :: "string \<Rightarrow> string list \<Rightarrow> string" where
  "join sep [] = []"
| "join sep [x] = x"
| "join sep (x # y # rest) = x @ sep @ join sep (y # rest)"

text \<open>\<open>os.path.join\<close> of two parts.\<close>

definition path_join :: "string \<Rightarrow> string \<Rightarrow> string" where
  "path_join a b =
     (if b \<noteq> [] \<and> hd b = CHR ''/'' then b
      else if a = [] \<or> last a = CHR ''/'' then a @ b
      else a @ ''/'' @ b)"

definition SIM_GEN :: string where
  "SIM_GEN = ''tools/simulated_iq_generator.py''"

definition ensure_dir :: "string \<Rightarrow> world \<Rightarrow> world" where
  "ensure_dir path w = w\<lparr>w_fs := makedirs path (w_fs w)\<rparr>"

text \<open>\<open>subprocess.check_call(cmd)\<close>.\<close>

definition check_call :: "oenv \<Rightarrow> string list \<Rightarrow> world \<Rightarrow> error option \<times> world" where
  "check_call e cmd w =
     (case subprocess e cmd (w_fs w) of
        (ok, s') \<Rightarrow>
          (if ok then None else Some CalledProcessError,
           \<lparr>w_fs = s', calls = calls w @ [cmd]\<rparr>))"

text \<open>Line 33, one tone: \<open>f"{int(t['freq_hz'])}:{t.get('amp',1.0)}"\<close>.\<close>

definition tone_arg :: "oenv \<Rightarrow> yaml \<Rightarrow> error + string" where
  "tone_arg e t =
     bind_e (dict_item t ''freq_hz'') (\<lambda>f.
     bind_e (py_int_of e f) (\<lambda>i.
     bind_e (dict_get t ''amp'' (YFloat 1)) (\<lambda>amp.
       Inr (py_str e (YInt i) @ '':'' @ py_str e amp))))"

fun tone_args :: "oenv \<Rightarrow> yaml list \<Rightarrow> error + string list" where
  "tone_args e [] = Inr []"
| "tone_args e (t # ts) =
     bind_e (tone_arg e t) (\<lambda>x.
     bind_e (tone_args e ts) (\<lambda>xs. Inr (x # xs)))"

text \<open>Lines 35 to 38: the burst token, when the manifest has a burst.\<close>

definition burst_arg :: "oenv \<Rightarrow> yaml \<Rightarrow> error + string option" where
  "burst_arg e b =
     (if truthy b then
        bind_e (dict_get b ''start_s'' (YInt 0)) (\<lambda>b0.
        bind_e (dict_get b ''duration_s'' (YFloat (5 / 100))) (\<lambda>b1.
        bind_e (dict_get b ''burst_rate_hz'' (YInt 5000)) (\<lambda>b2.
          Inr (Some (py_str e b0 @ '':'' @ py_str e b1 @ '':'' @ py_str e b2)))))
      else Inr None)"

text \<open>Lines 31 to 49 of \<open>run_simulated_generator\<close>: the command line of the generator.\<close>

definition build_cmd :: "oenv \<Rightarrow> yaml \<Rightarrow> string \<Rightarrow> error + string list" where
  "build_cmd e manifest out_iq =
     bind_e (dict_get manifest ''stimulus'' (YDict [])) (\<lambda>st.
     bind_e (dict_get st ''tones'' (YList [])) (\<lambda>tns.
     bind_e (py_iter tns) (\<lambda>ts.
     bind_e (tone_args e ts) (\<lambda>toks.
     bind_e (dict_get st ''noise_sigma'' (YFloat 0)) (\<lambda>noise_v.
     bind_e (dict_get st ''burst'' (YDict [])) (\<lambda>b.
     bind_e (burst_arg e b) (\<lambda>burst_v.
     bind_e (dict_item manifest ''capture_parameters'') (\<lambda>cp1.
     bind_e (dict_item cp1 ''duration_s'') (\<lambda>d.
     bind_e (dict_item manifest ''capture_parameters'') (\<lambda>cp2.
     bind_e (dict_item cp2 ''samplerate_hz'') (\<lambda>sr.
     bind_e (dict_get manifest ''created_at'' (YStr [])) (\<lambda>created.
       (case py_hash e created of
          None \<Rightarrow> Inl TypeError
        | Some h \<Rightarrow>
            Inr ([''python3'', SIM_GEN,
                  ''--duration'', py_str e d,
                  ''--samplerate'', py_str e sr,
                  ''--tones'', join '','' toks,
                  ''--noise'', py_str e noise_v,
                  ''--out'', out_iq,
                  ''--seed'', py_str e (YInt (h mod 2 ^ 32))]
                 @ (case burst_v of
                      None \<Rightarrow> []
                    | Some bs \<Rightarrow> if bs \<noteq> [] then [''--burst'', bs] else [])))))))))))))))"

definition run_simulated_generator :: "oenv \<Rightarrow> yaml \<Rightarrow> string \<Rightarrow> world \<Rightarrow> error option \<times> world" where
  "run_simulated_generator e manifest out_iq w =
     (case build_cmd e manifest out_iq of
        Inl err \<Rightarrow> (Some err, w)
      | Inr cmd \<Rightarrow> check_call e cmd w)"

definition save_metadata :: "string \<Rightarrow> string \<Rightarrow> yaml \<Rightarrow> string \<Rightarrow> world \<Rightarrow> world" where
  "save_metadata run_at out_dir manifest note' w =
     w\<lparr>w_fs := write_file (path_join out_dir ''run_metadata.json'')
                  (RunMetaJson manifest (run_at @ ''Z'') note') (w_fs w)\<rparr>"

text \<open>A string, or the TypeError of using another value where a string is needed.\<close>

fun as_str :: "yaml \<Rightarrow> error + string" where
  "as_str (YStr s) = Inr s"
| "as_str _ = Inl TypeError"

text \<open>Lines 89 to 95 of \<open>main\<close>: what follows the generator.\<close>

definition finalize :: "oenv \<Rightarrow> string \<Rightarrow> yaml \<Rightarrow> string \<Rightarrow> string \<Rightarrow> world \<Rightarrow> outcome \<times> world" where
  "finalize e run_at manifest out_dir iq_path w =
     (let gen_meta = iq_path @ ''.meta.json'';
          r = (if gen_meta \<in> dom (files (w_fs w)) \<or> gen_meta \<in> dirs (w_fs w)
               then check_call e [''cp'', gen_meta, out_dir] w
               else (None, w))
      in case r of
           (Some err, w') \<Rightarrow> (Raised err, w')
         | (None, w') \<Rightarrow>
             (Finished,
              save_metadata run_at out_dir manifest
                ''Simulated run completed. No over-air transmissions performed.'' w'))"

text \<open>Lines 80 to 87 of \<open>main\<close>: past the gate.\<close>

definition capture :: "oenv \<Rightarrow> string \<Rightarrow> yaml \<Rightarrow> string \<Rightarrow> world \<Rightarrow> outcome \<times> world" where
  "capture e run_at manifest out_dir w =
     (case bind_e (dict_item manifest ''stimulus'') (\<lambda>st.
           bind_e (dict_get st ''simulated_iq_file'' (YStr ''capture.iq'')) (\<lambda>f.
           bind_e (as_str f) (\<lambda>name.
           bind_e (dict_item manifest ''capture_parameters'') (\<lambda>cp.
           bind_e (dict_get cp ''mode'' YNull) (\<lambda>m.
             Inr (path_join out_dir name, m)))))) of
        Inl err \<Rightarrow> (Raised err, w)
      | Inr (iq_path, m) \<Rightarrow>
          (if m = YStr ''simulated'' then
             (case run_simulated_generator e manifest iq_path w of
                (Some err, w') \<Rightarrow> (Raised err, w')
              | (None, w') \<Rightarrow> finalize e run_at manifest out_dir iq_path w')
           else (Raised NotImplementedError, w)))"

text \<open>
  \<open>main\<close> of the orchestrator, on the loaded manifest and the \<open>--outdir\<close> option: \<open>stamp\<close>
  is the clock reading formatted for the run identity, \<open>run_at\<close> the later one of the run
  record. Messages printed to the terminal are not part of the state.
\<close>

definition orchestrater_main ::
  "oenv \<Rightarrow> string \<Rightarrow> string \<Rightarrow> string \<Rightarrow> yaml \<Rightarrow> world \<Rightarrow> outcome \<times> world" where
  "orchestrater_main e stamp run_at outdir manifest w =
     (case bind_e (dict_get manifest ''experiment_id'' (YStr ''run'')) as_str of
        Inl err \<Rightarrow> (Raised err, w)
      | Inr eid \<Rightarrow>
          (let run_id = eid @ ''_'' @ stamp;
               out_dir = path_join outdir run_id;
               w1 = ensure_dir out_dir w
           in case bind_e (dict_item manifest ''capture_parameters'')
                     (\<lambda>cp. dict_get cp ''mode'' (YStr ''simulated'')) of
                Inl err \<Rightarrow> (Raised err, w1)
              | Inr mode \<Rightarrow>
                  (if mode \<noteq> YStr ''simulated''
                      \<and> (case getenv e ''ALLOW_REAL_CAPTURE'' of None \<Rightarrow> ''0'' | Some v \<Rightarrow> v) \<noteq> ''1''
                   then (Rejected, w1)
                   else capture e run_at manifest out_dir w1)))"

section \<open>Sample runs\<close>

text \<open>
  A stand-in for the libraries, right on the strings the sample runs use: \<open>float\<close> on five
  literals, and a generator that draws zeros. The runs are one second at 4 Hz with a tone
  of frequency 0, so that every sample is exact in float32 as well.
\<close>

definition demo_env :: "nat env" where
  "demo_env =
     \<lparr>py_float = map_of [(''0'', 0), (''0.5'', 1 / 2), (''-0.5'', - (1 / 2)), (''0.25'', 1 / 4), (''1'', 1)],
      seed_rng = (\<lambda>n. n),
      normal1 = (\<lambda>g. (0, Suc g))\<rparr>"

definition demo_args :: args where
  "demo_args =
     \<lparr>duration = 1, samplerate = 4, tones = ''0:-0.5'', noise = 0,
      burst = ''0:0.5:0'', out = ''capture.iq'', seed = 42\<rparr>"

definition loud_args :: args where
  "loud_args =
     \<lparr>duration = 1, samplerate = 4, tones = ''0:1'', noise = 0,
      burst = ''0:0.5:0'', out = ''capture.iq'', seed = 42\<rparr>"

definition zero_mem :: "nat \<Rightarrow> real" where
  "zero_mem k = 0"

definition one_mem :: "nat \<Rightarrow> real" where
  "one_mem k = 1"

definition empty_fs :: fs where
  "empty_fs = \<lparr>dirs = {}, files = Map.empty\<rparr>"

definition used_fs :: fs where
  "used_fs = write_file ''capture.iq'' (Npy [0]) empty_fs"

definition zero_args :: args where
  "zero_args =
     \<lparr>duration = 0, samplerate = 4, tones = ''0:-0.5'', noise = 0,
      burst = ''0:0.5:0'', out = ''capture.iq'', seed = 42\<rparr>"

definition negative_args :: args where
  "negative_args =
     \<lparr>duration = - 1, samplerate = 4, tones = ''0:-0.5'', noise = 0,
      burst = ''0:0.5:0'', out = ''capture.iq'', seed = 42\<rparr>"

definition early_args :: args where
  "early_args =
     \<lparr>duration = 1, samplerate = 4, tones = [], noise = 0,
      burst = ''-0.5:0.25:0'', out = ''capture.iq'', seed = 42\<rparr>"

definition clock1 :: string where
  "clock1 = ''2024-01-01T00:00:00''"

definition clock2 :: string where
  "clock2 = ''2024-06-30T12:00:00''"

text \<open>
  For the orchestrator: renderings of the three values the sample manifest needs, a child
  process that always succeeds and changes nothing, and the environment without and with
  \<open>ALLOW_REAL_CAPTURE=1\<close>.
\<close>

definition demo_str :: "yaml \<Rightarrow> string" where
  "demo_str v =
     (if v = YInt 1000 then ''1000''
      else if v = YFloat (4 / 5) then ''0.8''
      else if v = YFloat 1 then ''1.0''
      else ''?'')"

definition keep_fs :: "string list \<Rightarrow> fs \<Rightarrow> bool \<times> fs" where
  "keep_fs cmd s = (True, s)"

definition no_int :: "string \<Rightarrow> int option" where
  "no_int s = None"

definition zero_hash :: "yaml \<Rightarrow> int option" where
  "zero_hash v = Some 0"

definition closed_env :: oenv where
  "closed_env =
     \<lparr>py_str = demo_str, py_int_str = no_int, py_hash = zero_hash,
      getenv = Map.empty, subprocess = keep_fs\<rparr>"

definition open_env :: oenv where
  "open_env =
     \<lparr>py_str = demo_str, py_int_str = no_int, py_hash = zero_hash,
      getenv = [''ALLOW_REAL_CAPTURE'' \<mapsto> ''1''], subprocess = keep_fs\<rparr>"

definition demo_tone :: "(string \<times> yaml) list" where
  "demo_tone = [(''freq_hz'', YFloat (2001 / 2)), (''amp'', YFloat (4 / 5))]"

definition real_cp :: yaml where
  "real_cp = YDict [(''duration_s'', YInt 1), (''samplerate_hz'', YInt 4), (''mode'', YStr ''real'')]"

definition real_manifest :: yaml where
  "real_manifest =
     YDict [(''experiment_id'', YStr ''exp''),
            (''capture_parameters'', real_cp),
            (''stimulus'', YDict [(''tones'', YList [YDict demo_tone])])]"

definition fresh_world :: world where
  "fresh_world = \<lparr>w_fs = empty_fs, calls = []\<rparr>"

definition stamp1 :: string where
  "stamp1 = ''20240101T000000Z''"

definition run_dir1 :: string where
  "run_dir1 = ''runs/exp_20240101T000000Z''"

section \<open>Sidecars up to their timestamp\<close>

text \<open>A sidecar with \<open>generated_at\<close> blanked; any other content is left as it is.\<close>

definition strip_generated_at :: "content \<Rightarrow> content" where
  "strip_generated_at c = (case c of MetaJson m \<Rightarrow> MetaJson (m\<lparr>generated_at := []\<rparr>) | _ \<Rightarrow> c)"

section \<open>Properties of the generator\<close>

subsection \<open>Lengths\<close>


lemma length_normal: "length (fst (normal e g k)) = k"
proof (induction k arbitrary: g)
  case 0
  show ?case by simp
next
  case (Suc k)
  obtain x g' where a: "normal1 e g = (x, g')" by (cases "normal1 e g")
  obtain xs g'' where b: "normal e g' k = (xs, g'')" by (cases "normal e g' k")
  from Suc[of g'] b have "length xs = k" by simp
  then show ?case by (simp add: a b)
qed

lemma length_mk_noise: "length (fst (mk_noise e g sigma k)) = k"
proof -
  obtain re g1 where a: "normal e g k = (re, g1)" by (cases "normal e g k")
  obtain im g2 where b: "normal e g1 k = (im, g2)" by (cases "normal e g1 k")
  have "length re = k" using length_normal[of e g k] a by simp
  moreover have "length im = k" using length_normal[of e g1 k] b by simp
  ultimately show ?thesis by (simp add: mk_noise_def a b)
qed

lemma length_mk_tone: "length (mk_tone freq amp sr t) = length t"
  by (simp add: mk_tone_def)

lemma length_add_arrays: "length x = length iq \<Longrightarrow> length (add_arrays iq x) = length iq"
  by (simp add: add_arrays_def)

lemma length_add_tones: "length t = length iq \<Longrightarrow> length (add_tones tns sr t iq) = length iq"
  by (induction tns sr t iq rule: add_tones.induct) (simp_all add: length_add_arrays length_mk_tone)

lemma baseline_lengths:
  assumes "baseline e a g0 = Inr (t, iq)"
  shows "0 \<le> \<lceil>duration a * samplerate a\<rceil> \<and> length t = nat \<lceil>duration a * samplerate a\<rceil> \<and> length iq = length t
    \<and> t = map (\<lambda>k. real k / samplerate a) [0 ..< nat \<lceil>duration a * samplerate a\<rceil>]"
  using assms
  by (auto simp: baseline_def Let_def length_add_tones length_add_arrays length_mk_noise
      split: if_splits sum.splits)

lemma slice_bound_le: "slice_bound n i \<le> n"
  by (auto simp: slice_bound_def)

lemma length_slice_set_get:
  "length (slice_set xs a b (map f (slice_get ys a b))) = length xs" if "length ys = length xs"
  using that slice_bound_le[of "length xs" a]
  by (simp add: slice_set_def slice_get_def Let_def)

lemma length_mk_burst: "length (mk_burst t sr bs bd br tf amp) = length t"
  by (simp add: mk_burst_def Let_def length_slice_set_get mk_tone_def)

lemma add_burst_length:
  "add_burst e a t iq = Inr iq' \<Longrightarrow> length t = length iq \<Longrightarrow> length iq' = length iq"
  by (auto simp: add_burst_def length_add_arrays length_mk_burst split: if_splits list.splits option.splits)

lemma length_limiter: "length (limiter iq) = length iq"
  by (simp add: limiter_def Let_def)

lemma synthesize_length:
  assumes "synthesize e a g0 = Inr iq"
  shows "int (length iq) = \<lceil>duration a * samplerate a\<rceil>"
proof -
  from assms obtain t iq0 iq1 where b: "baseline e a g0 = Inr (t, iq0)"
    and c: "add_burst e a t iq0 = Inr iq1" and d: "iq = limiter iq1"
    by (auto simp: synthesize_def split: sum.splits)
  from baseline_lengths[OF b] add_burst_length[OF c] d show ?thesis
    by (simp add: length_limiter)
qed


lemma nth_splice:
  assumes "lo \<le> hi" "hi \<le> length xs" "length ys = length xs" "i < length xs"
  shows "(take lo xs @ map f (take (hi - lo) (drop lo ys)) @ drop (lo + (hi - lo)) xs) ! i
         = (if lo \<le> i \<and> i < hi then f (ys ! i) else xs ! i)"
  using assms by (auto simp: nth_append min_def)

lemma mk_burst_nth:
  assumes s: "0 \<le> py_int (bs * sr)" and d: "0 \<le> py_int (bd * sr)" and i: "i < length t"
  shows "mk_burst t sr bs bd br 0 amp ! i =
         (if py_int (bs * sr) \<le> int i \<and> int i < py_int (bs * sr) + py_int (bd * sr)
          then of_real amp * cis (2 * pi * br * (t ! i)) else 0)"
proof (cases "py_int (bs * sr) < int (length t)")
  case False
  with i show ?thesis by (simp add: mk_burst_def)
next
  case True
  define S where "S = py_int (bs * sr)"
  define D where "D = py_int (bd * sr)"
  define n where "n = length t"
  define E where "E = min (int n) (S + D)"
  have lo: "slice_bound n S = nat S"
    using s True by (simp add: slice_bound_def S_def n_def)
  have hi: "slice_bound n E = nat E"
    using s d by (auto simp: slice_bound_def S_def D_def E_def)
  have le: "nat S \<le> nat E" using True d by (simp add: S_def D_def E_def n_def)
  have En: "nat E \<le> n" by (simp add: E_def)
  have len: "length (take (nat E - nat S) (drop (nat S) t)) = nat E - nat S"
    using En by (simp add: n_def)
  have "mk_burst t sr bs bd br 0 amp =
        take (nat S) (replicate n 0) @
        map (\<lambda>x. of_real amp * cis (2 * pi * br * x)) (take (nat E - nat S) (drop (nat S) t)) @
        drop (nat S + (nat E - nat S)) (replicate n 0)"
    using True len
    by (simp add: mk_burst_def slice_set_def slice_get_def Let_def lo hi
        S_def[symmetric] D_def[symmetric] n_def[symmetric] E_def[symmetric] del: take_replicate drop_replicate)
  moreover have "(take (nat S) (replicate n 0) @
        map (\<lambda>x. of_real amp * cis (2 * pi * br * x)) (take (nat E - nat S) (drop (nat S) t)) @
        drop (nat S + (nat E - nat S)) (replicate n (0::complex))) ! i
      = (if nat S \<le> i \<and> i < nat E then of_real amp * cis (2 * pi * br * (t ! i)) else replicate n 0 ! i)"
    using le En i by (intro nth_splice) (simp_all add: n_def)
  moreover have "(nat S \<le> i \<and> i < nat E) = (S \<le> int i \<and> int i < S + D)"
    using s i by (auto simp: E_def n_def S_def)
  ultimately show ?thesis using i by (simp add: S_def D_def n_def)
qed


lemma nth_add_arrays:
  "i < length iq \<Longrightarrow> length x = length iq \<Longrightarrow> add_arrays iq x ! i = iq ! i + x ! i"
  by (simp add: add_arrays_def)

text \<open>
  C1, as the code has it. With a burst option of three parseable fields whose start and
  duration give non-negative sample counts, the accumulator after the burst step holds, at
  every index of the window \<open>[start_idx, start_idx + dur_idx)\<close>, the tone and noise value
  of \<open>baseline\<close> plus the burst waveform \<open>cis (2 * pi * burst_rate * t)\<close>: the burst is
  added to what is there, it does not replace it. Outside the window the accumulator is the
  tone and noise value. The output is the limiter applied to this accumulator.
\<close>

theorem burst_superposes:
  assumes b: "baseline e a g0 = Inr (t, base)"
    and sp: "split_on (CHR '':'') (burst a) = p0 # p1 # p2 # rest"
    and f0: "py_float e p0 = Some bs" and f1: "py_float e p1 = Some bd"
    and f2: "py_float e p2 = Some br"
    and s: "0 \<le> py_int (bs * samplerate a)" and d: "0 \<le> py_int (bd * samplerate a)"
    and i: "i < length base"
  shows "\<exists>acc. add_burst e a t base = Inr acc \<and> synthesize e a g0 = Inr (limiter acc)
           \<and> length acc = length base
           \<and> acc ! i = base ! i +
               (if py_int (bs * samplerate a) \<le> int i
                   \<and> int i < py_int (bs * samplerate a) + py_int (bd * samplerate a)
                then cis (2 * pi * br * (real i / samplerate a)) else 0)"
proof -
  let ?acc = "add_arrays base (mk_burst t (samplerate a) bs bd br 0 1)"
  from sp have ne: "burst a \<noteq> []" by auto
  have ab: "add_burst e a t base = Inr ?acc"
    using ne sp f0 f1 f2 by (simp add: add_burst_def)
  have lt: "length base = length t" and tdef: "t = map (\<lambda>k. real k / samplerate a) [0 ..< nat \<lceil>duration a * samplerate a\<rceil>]"
    using baseline_lengths[OF b] by simp_all
  have it: "i < length t" using i lt by simp
  have ti: "t ! i = real i / samplerate a"
  proof -
    have "i < nat \<lceil>duration a * samplerate a\<rceil>" using it baseline_lengths[OF b] by simp
    then have "map (\<lambda>k. real k / samplerate a) [0 ..< nat \<lceil>duration a * samplerate a\<rceil>] ! i = real i / samplerate a"
      by simp
    then show ?thesis using tdef by simp
  qed
  have syn: "synthesize e a g0 = Inr (limiter ?acc)"
    by (simp add: synthesize_def b ab)
  have len: "length ?acc = length base"
    by (simp add: length_add_arrays length_mk_burst lt)
  have "?acc ! i = base ! i + mk_burst t (samplerate a) bs bd br 0 1 ! i"
    using i lt by (simp add: nth_add_arrays length_mk_burst)
  then have nth: "?acc ! i = base ! i +
               (if py_int (bs * samplerate a) \<le> int i
                   \<and> int i < py_int (bs * samplerate a) + py_int (bd * samplerate a)
                then cis (2 * pi * br * (real i / samplerate a)) else 0)"
    using mk_burst_nth[OF s d it, of br 1] ti by simp
  from ab syn len nth show ?thesis by blast
qed

lemma u4: "[0..<4] = [0, 1, 2, 3]"
  by (simp add: upt_rec)

lemma r4: "replicate 4 x = [x, x, x, x]"
  by (simp add: eval_nat_numeral)

lemma demo_parse_tones: "parse_tones demo_env ''0:-0.5'' = Inr [(0, - (1 / 2))]"
  by (simp add: parse_tones_def demo_env_def)

lemma demo_baseline:
  "baseline demo_env demo_args g = Inr ([0, 1 / 4, 1 / 2, 3 / 4], [- (1 / 2), - (1 / 2), - (1 / 2), - (1 / 2)])"
  by (simp add: baseline_def demo_args_def demo_parse_tones Let_def add_arrays_def mk_tone_def u4 r4)

lemma demo_mk_burst: "mk_burst [0, 1 / 4, 1 / 2, 3 / 4] 4 0 (1 / 2) 0 0 1 = [1, 1, 0, 0]"
  by (simp add: mk_burst_def py_int_def slice_get_def slice_set_def slice_bound_def Let_def)

lemma demo_add_burst:
  "add_burst demo_env demo_args [0, 1 / 4, 1 / 2, 3 / 4] [- (1 / 2), - (1 / 2), - (1 / 2), - (1 / 2)]
   = Inr [1 / 2, 1 / 2, - (1 / 2), - (1 / 2)]"
  by (simp add: add_burst_def demo_args_def demo_env_def demo_mk_burst add_arrays_def)

lemma demo_synthesize: "synthesize demo_env demo_args g = Inr [1 / 2, 1 / 2, - (1 / 2), - (1 / 2)]"
  by (simp add: synthesize_def demo_baseline demo_add_burst limiter_def peak_def)

text \<open>
  The hypotheses hold for one second at 4 Hz with the tone \<open>0:-0.5\<close> and the burst
  \<open>0:0.5:0\<close>: sample 0 lies in the window and is \<open>- 1/2 + 1\<close>.
\<close>

theorem burst_superposes_witness:
  "baseline demo_env demo_args 0 = Inr ([0, 1 / 4, 1 / 2, 3 / 4], [- (1 / 2), - (1 / 2), - (1 / 2), - (1 / 2)])
   \<and> split_on (CHR '':'') (burst demo_args) = [''0'', ''0.5'', ''0'']
   \<and> py_float demo_env ''0'' = Some 0 \<and> py_float demo_env ''0.5'' = Some (1 / 2)
   \<and> 0 \<le> py_int (0 * samplerate demo_args) \<and> 0 \<le> py_int (1 / 2 * samplerate demo_args)
   \<and> add_burst demo_env demo_args [0, 1 / 4, 1 / 2, 3 / 4] [- (1 / 2), - (1 / 2), - (1 / 2), - (1 / 2)]
       = Inr [1 / 2, 1 / 2, - (1 / 2), - (1 / 2)]
   \<and> [1 / 2, 1 / 2, - (1 / 2), - (1 / 2 :: complex)] ! 0 = [- (1 / 2), - (1 / 2), - (1 / 2), - (1 / 2)] ! 0 + cis 0"
proof -
  have h1: "baseline demo_env demo_args 0 = Inr ([0, 1 / 4, 1 / 2, 3 / 4], [- (1 / 2), - (1 / 2), - (1 / 2), - (1 / 2)])"
    by (rule demo_baseline)
  have h2: "split_on (CHR '':'') (burst demo_args) = ''0'' # ''0.5'' # ''0'' # []"
    by (simp add: demo_args_def)
  have h3: "py_float demo_env ''0'' = Some 0" by (simp add: demo_env_def)
  have h4: "py_float demo_env ''0.5'' = Some (1 / 2)" by (simp add: demo_env_def)
  have h5: "0 \<le> py_int (0 * samplerate demo_args)" by (simp add: py_int_def)
  have h6: "0 \<le> py_int (1 / 2 * samplerate demo_args)" by (simp add: py_int_def demo_args_def)
  have h7: "0 < length [- (1 / 2), - (1 / 2), - (1 / 2), - (1 / 2 :: complex)]" by simp
  from burst_superposes[OF h1 h2 h3 h4 h3 h5 h6 h7]
  show ?thesis using h1 h2 h3 h4 h5 h6 by (simp add: demo_add_burst)
qed

text \<open>
  C1 as stated fails on that run: sample 0 lies in the burst window, the burst waveform
  there is 1, and the output sample is \<open>1/2\<close>, the sum of tone and burst (the peak is
  below 1, so the limiter leaves the sequence alone).
\<close>

theorem burst_overwrite_counterexample:
  "synthesize demo_env demo_args 0 = Inr [1 / 2, 1 / 2, - (1 / 2), - (1 / 2)]
   \<and> mk_burst [0, 1 / 4, 1 / 2, 3 / 4] (samplerate demo_args) 0 (1 / 2) 0 0 1 ! 0 = 1
   \<and> [1 / 2, 1 / 2, - (1 / 2), - (1 / 2)] ! 0 \<noteq> (1 :: complex)"
proof -
  have "samplerate demo_args = 4" by (simp add: demo_args_def)
  then show ?thesis by (simp add: demo_synthesize demo_mk_burst)
qed

text \<open>
  C6: for positive \<open>duration\<close> and \<open>samplerate\<close>, a sequence that \<open>main\<close> synthesizes has
  exactly \<open>ceil(duration * samplerate)\<close> samples.
\<close>

theorem length_invariant:
  assumes "0 < duration a" and "0 < samplerate a" and "synthesize e a g0 = Inr iq"
  shows "int (length iq) = \<lceil>duration a * samplerate a\<rceil>"
  using assms(3) by (rule synthesize_length)

text \<open>One second at 4 Hz gives four samples.\<close>

theorem length_invariant_witness:
  "0 < duration demo_args \<and> 0 < samplerate demo_args
   \<and> synthesize demo_env demo_args 0 = Inr [1 / 2, 1 / 2, - (1 / 2), - (1 / 2)]
   \<and> int (length [1 / 2, 1 / 2, - (1 / 2), - (1 / 2 :: complex)]) = \<lceil>duration demo_args * samplerate demo_args\<rceil>"
proof -
  have h1: "0 < duration demo_args" by (simp add: demo_args_def)
  have h2: "0 < samplerate demo_args" by (simp add: demo_args_def)
  have h3: "synthesize demo_env demo_args 0 = Inr [1 / 2, 1 / 2, - (1 / 2), - (1 / 2)]"
    by (rule demo_synthesize)
  from length_invariant[OF h1 h2 h3] show ?thesis using h1 h2 h3 by simp
qed


lemma peak_ge: "z \<in> set acc \<Longrightarrow> cmod z \<le> peak acc"
  by (simp add: peak_def)

lemma peak_attained: "acc \<noteq> [] \<Longrightarrow> \<exists>z \<in> set acc. cmod z = peak acc"
proof -
  assume "acc \<noteq> []"
  then have "Max (set (map cmod acc)) \<in> set (map cmod acc)"
    by (intro Max_in) simp_all
  then show ?thesis by (auto simp: peak_def)
qed

lemma limiter_unscaled:
  assumes "\<not> (acc \<noteq> [] \<and> 1 < peak acc)"
  shows "limiter acc = acc"
proof (cases "list_ex (\<lambda>z. z \<noteq> 0) acc")
  case True
  then have "acc \<noteq> []" by auto
  with assms have "\<not> 1 < peak acc" by simp
  with True show ?thesis by (simp add: limiter_def)
next
  case False
  then show ?thesis by (simp add: limiter_def)
qed

lemma limiter_scaled:
  assumes "acc \<noteq> []" and "1 < peak acc"
  shows "limiter acc = map (\<lambda>z. z / of_real (peak acc)) acc"
proof -
  from peak_attained[OF assms(1)] obtain w where "w \<in> set acc" "cmod w = peak acc"
    by blast
  with assms(2) have "w \<in> set acc \<and> w \<noteq> 0" by auto
  then have "list_ex (\<lambda>z. z \<noteq> 0) acc" unfolding list_ex_iff by blast
  with assms(2) show ?thesis by (simp add: limiter_def)
qed

lemma limiter_cases:
  "limiter acc =
     (if acc \<noteq> [] \<and> 1 < peak acc then map (\<lambda>z. z / of_real (peak acc)) acc else acc)"
proof (cases "acc \<noteq> [] \<and> 1 < peak acc")
  case True
  show ?thesis unfolding if_P[OF True] using True by (simp add: limiter_scaled)
next
  case False
  show ?thesis unfolding if_not_P[OF False] using False by (rule limiter_unscaled)
qed

lemma limiter_bounded: "z \<in> set (limiter acc) \<Longrightarrow> cmod z \<le> 1"
proof (cases "acc \<noteq> [] \<and> 1 < peak acc")
  case True
  assume "z \<in> set (limiter acc)"
  with True obtain w where w: "w \<in> set acc" and zw: "z = w / of_real (peak acc)"
    by (auto simp: limiter_scaled)
  have "cmod w \<le> peak acc" using w by (rule peak_ge)
  with True show ?thesis by (simp add: zw norm_divide)
next
  case False
  assume zin: "z \<in> set (limiter acc)"
  then have m: "z \<in> set acc" by (simp add: limiter_unscaled[OF False])
  then have "acc \<noteq> []" by auto
  with False have "peak acc \<le> 1" by simp
  with peak_ge[OF m] show ?thesis by simp
qed

lemma limiter_peak:
  assumes "acc \<noteq> []" and "1 < peak acc"
  shows "peak (limiter acc) = 1"
  unfolding peak_def[of "limiter acc"]
proof (rule Max_eqI)
  show "finite (set (map cmod (limiter acc)))" by simp
next
  fix y assume "y \<in> set (map cmod (limiter acc))"
  then show "y \<le> 1" using limiter_bounded by auto
next
  from peak_attained[OF assms(1)] obtain w where w: "w \<in> set acc"
    and c: "cmod w = peak acc" by blast
  from assms have "cmod (w / of_real (peak acc)) = 1"
    by (simp add: norm_divide c)
  moreover have "w / of_real (peak acc) \<in> set (limiter acc)"
    using w by (auto simp: limiter_scaled[OF assms])
  ultimately show "1 \<in> set (map cmod (limiter acc))"
    by (metis image_eqI set_map)
qed

text \<open>
  C5: every sample of the synthesized sequence has magnitude at most 1. When the
  accumulator \<open>acc\<close> before the limiter has a peak magnitude above 1, the output is \<open>acc\<close>
  with every sample divided by that one peak, and its peak magnitude is exactly 1;
  otherwise the output is \<open>acc\<close> unchanged.
\<close>

theorem normalization_invariant:
  assumes "synthesize e a g0 = Inr iq"
  shows "\<exists>t base acc. baseline e a g0 = Inr (t, base) \<and> add_burst e a t base = Inr acc
     \<and> (\<forall>z \<in> set iq. cmod z \<le> 1)
     \<and> iq = (if acc \<noteq> [] \<and> 1 < peak acc then map (\<lambda>z. z / of_real (peak acc)) acc else acc)
     \<and> (acc \<noteq> [] \<and> 1 < peak acc \<longrightarrow> peak iq = 1)"
proof -
  from assms obtain t base acc where b: "baseline e a g0 = Inr (t, base)"
    and c: "add_burst e a t base = Inr acc" and d: "iq = limiter acc"
    by (auto simp: synthesize_def split: sum.splits)
  have "\<forall>z \<in> set iq. cmod z \<le> 1" using d limiter_bounded by blast
  moreover have "iq = (if acc \<noteq> [] \<and> 1 < peak acc
             then map (\<lambda>z. z / of_real (peak acc)) acc else acc)"
    unfolding d by (rule limiter_cases)
  moreover have "acc \<noteq> [] \<and> 1 < peak acc \<longrightarrow> peak iq = 1"
    unfolding d using limiter_peak by blast
  ultimately show ?thesis using b c by blast
qed

lemma loud_parse_tones: "parse_tones demo_env ''0:1'' = Inr [(0, 1)]"
  by (simp add: parse_tones_def demo_env_def)

lemma loud_baseline:
  "baseline demo_env loud_args g = Inr ([0, 1 / 4, 1 / 2, 3 / 4], [1, 1, 1, 1])"
  by (simp add: baseline_def loud_args_def loud_parse_tones Let_def add_arrays_def mk_tone_def u4 r4)

lemma loud_add_burst:
  "add_burst demo_env loud_args [0, 1 / 4, 1 / 2, 3 / 4] [1, 1, 1, 1] = Inr [2, 2, 1, 1]"
  by (simp add: add_burst_def loud_args_def demo_env_def demo_mk_burst add_arrays_def)

lemma loud_peak: "peak [2, 2, 1, 1] = 2"
  by (simp add: peak_def)

lemma loud_limiter: "limiter [2, 2, 1, 1] = [1, 1, 1 / 2, 1 / 2]"
  by (simp add: limiter_scaled loud_peak)

lemma loud_synthesize: "synthesize demo_env loud_args g = Inr [1, 1, 1 / 2, 1 / 2]"
  by (simp add: synthesize_def loud_baseline loud_add_burst loud_limiter)

text \<open>
  The tone \<open>0:1\<close> with the burst \<open>0:0.5:0\<close> gives the accumulator \<open>[2, 2, 1, 1]\<close>, which
  is divided by 2.
\<close>

theorem normalization_invariant_witness:
  "synthesize demo_env loud_args 0 = Inr [1, 1, 1 / 2, 1 / 2]
   \<and> add_burst demo_env loud_args [0, 1 / 4, 1 / 2, 3 / 4] [1, 1, 1, 1] = Inr [2, 2, 1, 1]
   \<and> 1 < peak [2, 2, 1, 1]
   \<and> cmod ([1, 1, 1 / 2, 1 / 2] ! 0) \<le> 1
   \<and> [1, 1, 1 / 2, 1 / 2] = map (\<lambda>z. z / of_real (peak [2, 2, 1, 1])) [2, 2, 1, 1 :: complex]
   \<and> peak [1, 1, 1 / 2, 1 / 2] = 1"
proof -
  have h: "synthesize demo_env loud_args 0 = Inr [1, 1, 1 / 2, 1 / 2]"
    by (rule loud_synthesize)
  have "\<exists>acc. add_burst demo_env loud_args [0, 1 / 4, 1 / 2, 3 / 4] [1, 1, 1, 1] = Inr acc
     \<and> (\<forall>z \<in> set [1, 1, 1 / 2, 1 / 2]. cmod z \<le> 1)
     \<and> [1, 1, 1 / 2, 1 / 2] = (if acc \<noteq> [] \<and> 1 < peak acc then map (\<lambda>z. z / of_real (peak acc)) acc else acc)
     \<and> (acc \<noteq> [] \<and> 1 < peak acc \<longrightarrow> peak [1, 1, 1 / 2, 1 / 2] = 1)"
    using normalization_invariant[OF h] unfolding loud_baseline by simp
  then obtain acc where a: "add_burst demo_env loud_args [0, 1 / 4, 1 / 2, 3 / 4] [1, 1, 1, 1] = Inr acc"
    and r1: "\<forall>z \<in> set [1, 1, 1 / 2, 1 / 2]. cmod z \<le> 1"
    and r2: "[1, 1, 1 / 2, 1 / 2] = (if acc \<noteq> [] \<and> 1 < peak acc then map (\<lambda>z. z / of_real (peak acc)) acc else acc)"
    and r3: "acc \<noteq> [] \<and> 1 < peak acc \<longrightarrow> peak [1, 1, 1 / 2, 1 / 2] = 1"
    by blast
  from a have acc: "acc = [2, 2, 1, 1]" unfolding loud_add_burst by simp
  have p: "1 < peak [2, 2, 1, 1]" by (simp add: loud_peak)
  then have c: "[2, 2, 1, 1] \<noteq> [] \<and> 1 < peak [2, 2, 1, 1]" by simp
  note r2' = r2[unfolded acc if_P[OF c]]
  note r3' = r3[unfolded acc, THEN mp, OF c]
  have "[1, 1, 1 / 2, 1 / 2] ! 0 \<in> set [1, 1, 1 / 2, 1 / 2 :: complex]" by simp
  with r1 have r1': "cmod ([1, 1, 1 / 2, 1 / 2] ! 0) \<le> 1" by blast
  show ?thesis
    by (intro conjI) (fact h, fact loud_add_burst, fact p, fact r1', fact r2', fact r3')
qed


subsection \<open>The raw layout\<close>

lemma length_set_stride2: "length (set_stride2 xs s vs) = length xs"
  by (induction vs arbitrary: xs s) simp_all

lemma set_stride2_untouched:
  "(\<And>k. k < length vs \<Longrightarrow> j \<noteq> s + 2 * k) \<Longrightarrow> set_stride2 xs s vs ! j = xs ! j"
proof (induction vs arbitrary: xs s)
  case Nil
  show ?case by simp
next
  case (Cons v vs)
  have js: "j \<noteq> s" using Cons.prems[of 0] by simp
  have "set_stride2 (xs[s := v]) (s + 2) vs ! j = (xs[s := v]) ! j"
  proof (rule Cons.IH)
    fix k assume "k < length vs"
    then show "j \<noteq> s + 2 + 2 * k" using Cons.prems[of "Suc k"] by simp
  qed
  with js show ?case by simp
qed

lemma set_stride2_hit:
  "k < length vs \<Longrightarrow> s + 2 * k < length xs \<Longrightarrow> set_stride2 xs s vs ! (s + 2 * k) = vs ! k"
proof (induction vs arbitrary: xs s k)
  case Nil
  then show ?case by simp
next
  case (Cons v vs)
  show ?case
  proof (cases k)
    case 0
    have "set_stride2 (xs[s := v]) (s + 2) vs ! s = (xs[s := v]) ! s"
      by (rule set_stride2_untouched) simp
    with 0 Cons.prems show ?thesis by simp
  next
    case (Suc k')
    with Cons.prems have "k' < length vs" "s + 2 + 2 * k' < length (xs[s := v])" by simp_all
    from Cons.IH[OF this] Suc show ?thesis by simp
  qed
qed

lemma length_interleave: "length (interleave mem iq) = 2 * length iq"
  by (simp add: interleave_def Let_def length_set_stride2 np_empty_def)

lemma interleave_even:
  assumes "k < length iq"
  shows "interleave mem iq ! (2 * k) = Re (iq ! k)"
proof -
  let ?inner = "set_stride2 (np_empty mem (length iq + length iq)) 0 (map Re iq)"
  have a: "set_stride2 ?inner 1 (map Im iq) ! (2 * k) = ?inner ! (2 * k)"
    by (rule set_stride2_untouched) presburger
  have "?inner ! (0 + 2 * k) = map Re iq ! k"
    using assms by (intro set_stride2_hit) (simp_all add: np_empty_def)
  then have b: "?inner ! (2 * k) = Re (iq ! k)" using assms by simp
  show ?thesis using a b by (simp add: interleave_def Let_def)
qed

lemma interleave_odd:
  assumes "k < length iq"
  shows "interleave mem iq ! (2 * k + 1) = Im (iq ! k)"
proof -
  let ?inner = "set_stride2 (np_empty mem (length iq + length iq)) 0 (map Re iq)"
  have "set_stride2 ?inner 1 (map Im iq) ! (1 + 2 * k) = map Im iq ! k"
    using assms by (intro set_stride2_hit) (simp_all add: np_empty_def length_set_stride2)
  then show ?thesis using assms by (simp add: interleave_def Let_def add.commute)
qed

lemma deinterleave_pairs:
  "length xs = 2 * length zs \<Longrightarrow>
   (\<And>k. k < length zs \<Longrightarrow> xs ! (2 * k) = Re (zs ! k) \<and> xs ! (2 * k + 1) = Im (zs ! k)) \<Longrightarrow>
   deinterleave xs = zs"
proof (induction zs arbitrary: xs)
  case Nil
  then show ?case by simp
next
  case (Cons z zs)
  from Cons.prems(1) obtain i q rest where xs: "xs = i # q # rest"
    by (cases xs; cases "tl xs") auto
  from Cons.prems(2)[of 0] xs have iq: "i = Re z" "q = Im z" by simp_all
  have "deinterleave rest = zs"
  proof (rule Cons.IH)
    show "length rest = 2 * length zs" using Cons.prems(1) xs by simp
  next
    fix k assume "k < length zs"
    then have "Suc k < length (z # zs)" by simp
    from Cons.prems(2)[OF this] xs
    show "rest ! (2 * k) = Re (zs ! k) \<and> rest ! (2 * k + 1) = Im (zs ! k)" by simp
  qed
  with xs iq show ?case by simp
qed

lemma deinterleave_interleave: "deinterleave (interleave mem iq) = iq"
proof (rule deinterleave_pairs)
  show "length (interleave mem iq) = 2 * length iq" by (rule length_interleave)
next
  fix k assume "k < length iq"
  then show "interleave mem iq ! (2 * k) = Re (iq ! k) \<and> interleave mem iq ! (2 * k + 1) = Im (iq ! k)"
    using interleave_even interleave_odd by blast
qed


subsection \<open>Determinism and failure of \<open>main\<close>\<close>

lemma interleave_mem: "interleave mem1 iq = interleave mem2 iq"
proof (rule nth_equalityI)
  show "length (interleave mem1 iq) = length (interleave mem2 iq)"
    by (simp add: length_interleave)
next
  fix j assume "j < length (interleave mem1 iq)"
  then have j: "j < 2 * length iq" by (simp add: length_interleave)
  show "interleave mem1 iq ! j = interleave mem2 iq ! j"
  proof (cases "even j")
    case True
    then obtain k where k: "j = 2 * k" by (elim evenE)
    with j have "k < length iq" by simp
    then show ?thesis unfolding k by (simp only: interleave_even)
  next
    case False
    then obtain k where k: "j = 2 * k + 1" by (elim oddE)
    with j have "k < length iq" by simp
    then show ?thesis unfolding k by (simp only: interleave_odd)
  qed
qed

lemma synthesize_seeded: "synthesize e a g1 = synthesize e a g2"
  by (simp add: synthesize_def baseline_def np_random_seed_def)

lemma main_status: "fst (main e now mem g0 a s) = (case synthesize e a g0 of Inl err \<Rightarrow> Some err | Inr _ \<Rightarrow> None)"
  by (simp add: main_def Let_def split: sum.splits)

lemma main_artifact:
  assumes "synthesize e a g0 = Inr iq"
  shows "files (snd (main e now mem g0 a s)) (out a) =
         Some (if endswith (out a) ''.npy'' then Npy iq else Interleaved (interleave mem iq))"
  using assms by (simp add: main_def Let_def write_file_def)

lemma main_sidecar:
  assumes "synthesize e a g0 = Inr iq"
  shows "files (snd (main e now mem g0 a s)) (out a @ ''.meta.json'') =
         Some (MetaJson \<lparr>generated_at = now @ ''Z'',
                       duration_s = duration a,
                       samplerate_hz = samplerate a,
                       meta_tones = (case parse_tones e (tones a) of Inl _ \<Rightarrow> [] | Inr tns \<Rightarrow> tns),
                       noise_sigma = noise a,
                       burst_spec = burst a,
                       meta_seed = seed a,
                       meta_file = basename (out a),
                       meta_note = safety_note\<rparr>)"
  using assms by (simp add: main_def Let_def write_file_def)

text \<open>
  C4: two runs of \<open>main\<close> on the same arguments, whatever the clock, the state of the
  random generator at start, the uninitialised memory and the file system they start from,
  end alike (both succeed or both raise the same exception), and on success they leave the
  same artifact at \<open>out\<close> and sidecars that agree once \<open>generated_at\<close> is blanked.
\<close>

theorem determinism:
  "fst (main e now1 mem1 g1 a s1) = fst (main e now2 mem2 g2 a s2)
   \<and> (fst (main e now1 mem1 g1 a s1) = None \<longrightarrow>
        files (snd (main e now1 mem1 g1 a s1)) (out a)
          = files (snd (main e now2 mem2 g2 a s2)) (out a)
      \<and> map_option strip_generated_at (files (snd (main e now1 mem1 g1 a s1)) (out a @ ''.meta.json''))
          = map_option strip_generated_at (files (snd (main e now2 mem2 g2 a s2)) (out a @ ''.meta.json'')))"
proof (cases "synthesize e a g1")
  case (Inl err)
  then have "synthesize e a g2 = Inl err" using synthesize_seeded[of e a g1 g2] by simp
  with Inl show ?thesis by (simp add: main_status)
next
  case (Inr iq)
  then have r2: "synthesize e a g2 = Inr iq" using synthesize_seeded[of e a g1 g2] by simp
  have "interleave mem1 iq = interleave mem2 iq" by (rule interleave_mem)
  then show ?thesis
    by (simp add: main_status Inr r2 main_artifact[OF Inr] main_artifact[OF r2]
        main_sidecar[OF Inr] main_sidecar[OF r2] strip_generated_at_def)
qed

text \<open>
  C7: when \<open>out\<close> does not end in \<open>.npy\<close>, the artifact of a successful run holds two
  values per sample, \<open>I\<close> at the even and \<open>Q\<close> at the odd positions, in sample order, and
  reading it back pair by pair gives the synthesized sequence again (exactly so, the parts
  of a \<open>complex64\<close> sample being float32 values).
\<close>

theorem raw_roundtrip:
  assumes "\<not> endswith (out a) ''.npy''" and "main e now mem g0 a s = (None, s')"
  shows "\<exists>iq xs. synthesize e a g0 = Inr iq \<and> files s' (out a) = Some (Interleaved xs)
           \<and> length xs = 2 * length iq
           \<and> (\<forall>k < length iq. xs ! (2 * k) = Re (iq ! k) \<and> xs ! (2 * k + 1) = Im (iq ! k))
           \<and> deinterleave xs = iq"
proof -
  from assms(2) have "fst (main e now mem g0 a s) = None" by simp
  then obtain iq where syn: "synthesize e a g0 = Inr iq"
    by (auto simp: main_status split: sum.splits)
  from assms(2) have "s' = snd (main e now mem g0 a s)" by simp
  with main_artifact[OF syn, of now mem s] assms(1)
  have f: "files s' (out a) = Some (Interleaved (interleave mem iq))" by simp
  show ?thesis
    using syn f length_interleave[of mem iq] interleave_even[of _ iq mem]
      interleave_odd[of _ iq mem] deinterleave_interleave[of mem iq]
    by blast
qed

text \<open>
  C3, as the code has it. \<open>main\<close> has no check of \<open>duration\<close> or \<open>samplerate\<close>. When
  \<open>ceil(duration * samplerate)\<close> is negative the run raises a ValueError (from the
  allocation of the zero array, or from the seed before it) and the file system is as it
  was.
\<close>

theorem negative_length_fails:
  assumes "\<lceil>duration a * samplerate a\<rceil> < 0"
  shows "main e now mem g0 a s = (Some ValueError, s)"
proof -
  from assms have "baseline e a g0 = Inl ValueError"
    by (simp add: baseline_def Let_def)
  then show ?thesis by (simp add: main_def synthesize_def)
qed


lemma demo_main_status: "fst (main demo_env now mem g demo_args s) = None"
  by (simp add: main_status demo_synthesize)

text \<open>The sample run writes eight values for its four samples.\<close>

theorem raw_roundtrip_witness:
  "\<not> endswith (out demo_args) ''.npy''
   \<and> main demo_env clock1 zero_mem 0 demo_args empty_fs
       = (None, snd (main demo_env clock1 zero_mem 0 demo_args empty_fs))
   \<and> (\<exists>xs. files (snd (main demo_env clock1 zero_mem 0 demo_args empty_fs)) (out demo_args)
              = Some (Interleaved xs)
           \<and> length xs = 8 \<and> deinterleave xs = [1 / 2, 1 / 2, - (1 / 2), - (1 / 2)])"
proof -
  have h1: "\<not> endswith (out demo_args) ''.npy''"
    by (simp add: endswith_def demo_args_def)
  have h2: "main demo_env clock1 zero_mem 0 demo_args empty_fs
       = (None, snd (main demo_env clock1 zero_mem 0 demo_args empty_fs))"
    using demo_main_status[of clock1 zero_mem 0 empty_fs] by (simp add: prod_eq_iff)
  from raw_roundtrip[OF h1 h2] obtain iq xs where
    a: "synthesize demo_env demo_args 0 = Inr iq"
    and b: "files (snd (main demo_env clock1 zero_mem 0 demo_args empty_fs)) (out demo_args) = Some (Interleaved xs)"
    and c: "length xs = 2 * length iq" and d: "deinterleave xs = iq"
    by blast
  from a have iq: "iq = [1 / 2, 1 / 2, - (1 / 2), - (1 / 2)]" by (simp add: demo_synthesize)
  from c have c': "length xs = 8" by (simp add: iq)
  from b c' d[unfolded iq] h1 h2 show ?thesis by blast
qed

text \<open>Two runs of the sample arguments that differ in all four respects.\<close>

theorem determinism_witness:
  "fst (main demo_env clock1 zero_mem 0 demo_args empty_fs) = None
   \<and> files (snd (main demo_env clock1 zero_mem 0 demo_args empty_fs)) (out demo_args)
       = files (snd (main demo_env clock2 one_mem 7 demo_args used_fs)) (out demo_args)
   \<and> map_option strip_generated_at
        (files (snd (main demo_env clock1 zero_mem 0 demo_args empty_fs)) (out demo_args @ ''.meta.json''))
       = map_option strip_generated_at
        (files (snd (main demo_env clock2 one_mem 7 demo_args used_fs)) (out demo_args @ ''.meta.json''))"
proof -
  have h: "fst (main demo_env clock1 zero_mem 0 demo_args empty_fs) = None"
    by (rule demo_main_status)
  from determinism[of demo_env clock1 zero_mem 0 demo_args empty_fs clock2 one_mem 7 used_fs] h
  show ?thesis by blast
qed

text \<open>A duration of \<open>-1\<close> second at 4 Hz.\<close>

theorem negative_length_fails_witness:
  "\<lceil>duration negative_args * samplerate negative_args\<rceil> < 0
   \<and> main demo_env clock1 zero_mem 0 negative_args empty_fs = (Some ValueError, empty_fs)"
proof -
  have h: "\<lceil>duration negative_args * samplerate negative_args\<rceil> < 0"
    by (simp add: negative_args_def)
  from negative_length_fails[OF h, of demo_env clock1 zero_mem 0 empty_fs] h
  show ?thesis by simp
qed

lemma zero_synthesize: "synthesize demo_env zero_args g = Inr []"
proof -
  have b: "baseline demo_env zero_args g = Inr ([], [])"
    by (simp add: baseline_def zero_args_def demo_parse_tones Let_def add_arrays_def mk_tone_def)
  have c: "add_burst demo_env zero_args [] [] = Inr []"
    by (simp add: add_burst_def zero_args_def demo_env_def mk_burst_def py_int_def add_arrays_def)
  show ?thesis by (simp add: synthesize_def b c limiter_def)
qed

text \<open>
  C3 as stated fails for a duration of 0: the run succeeds and writes an empty artifact.
\<close>

theorem invalid_specification_counterexample:
  "duration zero_args \<le> 0
   \<and> fst (main demo_env clock1 zero_mem 0 zero_args empty_fs) = None
   \<and> files (snd (main demo_env clock1 zero_mem 0 zero_args empty_fs)) ''capture.iq''
       = Some (Interleaved [])"
proof -
  have a: "duration zero_args \<le> 0" by (simp add: zero_args_def)
  have b: "fst (main demo_env clock1 zero_mem 0 zero_args empty_fs) = None"
    by (simp add: main_status zero_synthesize)
  have o: "out zero_args = ''capture.iq''" by (simp add: zero_args_def)
  have "files (snd (main demo_env clock1 zero_mem 0 zero_args empty_fs)) (out zero_args)
       = Some (Interleaved (interleave zero_mem []))"
    using main_artifact[OF zero_synthesize, of clock1 zero_mem 0 empty_fs]
    by (simp add: o endswith_def)
  then have c: "files (snd (main demo_env clock1 zero_mem 0 zero_args empty_fs)) ''capture.iq''
       = Some (Interleaved [])"
    by (simp add: o interleave_def np_empty_def)
  from a b c show ?thesis by blast
qed

subsection \<open>A burst before the start of the sequence\<close>

lemma early_mk_burst: "mk_burst [0, 1 / 4, 1 / 2, 3 / 4] 4 (- (1 / 2)) (1 / 4) 0 0 1 = [0, 0, 1, 0]"
  by (simp add: mk_burst_def py_int_def slice_get_def slice_set_def slice_bound_def Let_def)

text \<open>
  C8 at a burst that lies before the sequence: start \<open>-0.5\<close> s and duration \<open>0.25\<close> s at
  4 Hz give \<open>start_idx = -2\<close> and \<open>dur_idx = 1\<close>, so the window \<open>[-2, -1)\<close> has no index of
  the four samples; the slice \<open>burst[-2:-1]\<close> counts from the end, and the burst lands on
  sample 2. For non-negative \<open>start_idx\<close> and \<open>dur_idx\<close> the window is clipped as C8 says
  (\<open>mk_burst_nth\<close>).
\<close>

theorem burst_before_start_wraps:
  "py_int (- (1 / 2) * 4) = - 2 \<and> py_int (1 / 4 * 4) = 1
   \<and> mk_burst [0, 1 / 4, 1 / 2, 3 / 4] 4 (- (1 / 2)) (1 / 4) 0 0 1 = [0, 0, 1, 0]
   \<and> synthesize demo_env early_args 0 = Inr [0, 0, 1, 0]"
proof -
  have p: "parse_tones demo_env [] = Inr []" by (simp add: parse_tones_def)
  have b: "baseline demo_env early_args 0 = Inr ([0, 1 / 4, 1 / 2, 3 / 4], [0, 0, 0, 0])"
    by (simp add: baseline_def early_args_def p Let_def u4 r4)
  have c: "add_burst demo_env early_args [0, 1 / 4, 1 / 2, 3 / 4] [0, 0, 0, 0] = Inr [0, 0, 1, 0]"
    by (simp add: add_burst_def early_args_def demo_env_def early_mk_burst add_arrays_def)
  have d: "limiter [0, 0, 1, 0] = [0, 0, 1, 0]"
    by (simp add: limiter_def peak_def)
  have s: "synthesize demo_env early_args 0 = Inr [0, 0, 1, 0]"
    by (simp add: synthesize_def b c d)
  have i: "py_int (- (1 / 2) * 4) = - 2 \<and> py_int (1 / 4 * 4) = 1"
    by (simp add: py_int_def)
  from i early_mk_burst s show ?thesis by blast
qed


section \<open>Properties of the orchestrator\<close>

lemma trunc_neg: "f \<le> c \<Longrightarrow> c < f + 1 \<Longrightarrow> c \<le> 0 \<Longrightarrow> \<bar>c\<bar> \<le> \<bar>f\<bar> \<and> \<bar>f - c\<bar> < (1::real)"
  by linarith

lemma trunc_pos: "c \<le> f \<Longrightarrow> f < c + 1 \<Longrightarrow> 0 \<le> c \<Longrightarrow> \<bar>c\<bar> \<le> \<bar>f\<bar> \<and> \<bar>f - c\<bar> < (1::real)"
  by linarith

lemma py_int_towards_zero: "\<bar>of_int (py_int f)\<bar> \<le> \<bar>f\<bar> \<and> \<bar>f - of_int (py_int f)\<bar> < 1"
proof (cases "f < 0")
  case True
  have a: "f \<le> of_int \<lceil>f\<rceil>" and b: "of_int \<lceil>f\<rceil> < f + 1" by linarith+
  have "\<lceil>f\<rceil> \<le> 0" using True by (simp add: ceiling_le_iff)
  then have c: "real_of_int \<lceil>f\<rceil> \<le> 0" by simp
  have py: "py_int f = \<lceil>f\<rceil>" using True by (simp add: py_int_def)
  show ?thesis unfolding py by (rule trunc_neg[OF a b c])
next
  case False
  have a: "of_int \<lfloor>f\<rfloor> \<le> f" and b: "f < of_int \<lfloor>f\<rfloor> + 1" by linarith+
  have "0 \<le> \<lfloor>f\<rfloor>" using False by simp
  then have c: "0 \<le> real_of_int \<lfloor>f\<rfloor>" by simp
  have py: "py_int f = \<lfloor>f\<rfloor>" using False by (simp add: py_int_def)
  show ?thesis unfolding py by (rule trunc_pos[OF a b c])
qed

text \<open>
  C10: for a manifest tone whose \<open>freq_hz\<close> is a float \<open>f\<close>, the token sent to the
  generator is the rendering of the integer \<open>int(f)\<close>, a colon, and the rendering of the
  \<open>amp\<close> entry as it is, or of \<open>1.0\<close> when there is none. \<open>int(f)\<close> is \<open>f\<close> truncated towards
  zero: no larger in magnitude than \<open>f\<close> and less than 1 away from it.
\<close>

theorem tone_frequency_truncated:
  assumes "map_of kvs ''freq_hz'' = Some (YFloat f)"
  shows "tone_arg e (YDict kvs)
           = Inr (py_str e (YInt (py_int f)) @ '':''
                  @ py_str e (case map_of kvs ''amp'' of None \<Rightarrow> YFloat 1 | Some v \<Rightarrow> v))
         \<and> \<bar>of_int (py_int f)\<bar> \<le> \<bar>f\<bar> \<and> \<bar>f - of_int (py_int f)\<bar> < 1"
proof -
  have "tone_arg e (YDict kvs)
           = Inr (py_str e (YInt (py_int f)) @ '':''
                  @ py_str e (case map_of kvs ''amp'' of None \<Rightarrow> YFloat 1 | Some v \<Rightarrow> v))"
    using assms by (simp add: tone_arg_def bind_e_def split: option.splits)
  with py_int_towards_zero[of f] show ?thesis by blast
qed

text \<open>A tone at 1000.5 Hz with amplitude 0.8 is sent as \<open>1000:0.8\<close>.\<close>

theorem tone_frequency_truncated_witness:
  "map_of demo_tone ''freq_hz'' = Some (YFloat (2001 / 2))
   \<and> tone_arg closed_env (YDict demo_tone) = Inr ''1000:0.8''
   \<and> py_int (2001 / 2) = 1000"
proof -
  have h: "map_of demo_tone ''freq_hz'' = Some (YFloat (2001 / 2))"
    by (simp add: demo_tone_def)
  have p: "py_int (2001 / 2) = 1000" by (simp add: py_int_def)
  have a: "map_of demo_tone ''amp'' = Some (YFloat (4 / 5))" by (simp add: demo_tone_def)
  from tone_frequency_truncated[OF h, of closed_env]
  have "tone_arg closed_env (YDict demo_tone) = Inr ''1000:0.8''"
    unfolding p a by (simp add: closed_env_def demo_str_def)
  with h p show ?thesis by blast
qed


lemma ensure_dir_calls: "calls (ensure_dir p w) = calls w"
  by (simp add: ensure_dir_def)

lemma ensure_dir_files: "files (w_fs (ensure_dir p w)) = files (w_fs w)"
  by (simp add: ensure_dir_def makedirs_def)

lemma ensure_dir_dirs: "dirs (w_fs (ensure_dir p w)) = dirs (w_fs w) \<union> set (ancestors p) \<union> {p}"
  by (simp add: ensure_dir_def makedirs_def)

lemma dict_item_get: "dict_item d k = Inr v \<Longrightarrow> dict_get d k dflt = Inr v"
  by (cases d) (auto split: option.splits)

lemma finalize_not_rejected: "fst (finalize e run_at manifest out_dir iq_path w) \<noteq> Rejected"
  by (auto simp: finalize_def Let_def split: prod.splits option.splits)

lemma capture_not_rejected: "fst (capture e run_at manifest out_dir w) \<noteq> Rejected"
  using finalize_not_rejected
  by (auto simp: capture_def split: sum.splits prod.splits option.splits)

text \<open>
  C2: for a manifest with an \<open>experiment_id\<close> that is a string (or none) and
  \<open>capture_parameters\<close> whose \<open>mode\<close> is not the string \<open>simulated\<close>. When
  \<open>ALLOW_REAL_CAPTURE\<close> is not \<open>1\<close> the run is rejected. When it is \<open>1\<close> and the manifest
  has its \<open>stimulus\<close> section (with a string, or nothing, as \<open>simulated_iq_file\<close>), the run
  raises NotImplementedError. Either way the state left behind is the initial one with the
  run directory made: no child process was started and no file was written.
\<close>

theorem gate_enforcement:
  assumes eid: "bind_e (dict_get manifest ''experiment_id'' (YStr ''run'')) as_str = Inr eid"
    and cp: "dict_item manifest ''capture_parameters'' = Inr cp"
    and mode: "dict_item cp ''mode'' = Inr mode"
    and ns: "mode \<noteq> YStr ''simulated''"
  shows "(getenv e ''ALLOW_REAL_CAPTURE'' \<noteq> Some ''1'' \<longrightarrow>
            orchestrater_main e stamp run_at outdir manifest w
              = (Rejected, ensure_dir (path_join outdir (eid @ ''_'' @ stamp)) w))
       \<and> (getenv e ''ALLOW_REAL_CAPTURE'' = Some ''1''
            \<and> dict_item manifest ''stimulus'' = Inr st
            \<and> bind_e (dict_get st ''simulated_iq_file'' (YStr ''capture.iq'')) as_str = Inr name \<longrightarrow>
            orchestrater_main e stamp run_at outdir manifest w
              = (Raised NotImplementedError, ensure_dir (path_join outdir (eid @ ''_'' @ stamp)) w))
       \<and> calls (ensure_dir (path_join outdir (eid @ ''_'' @ stamp)) w) = calls w
       \<and> files (w_fs (ensure_dir (path_join outdir (eid @ ''_'' @ stamp)) w)) = files (w_fs w)"
proof -
  let ?w1 = "ensure_dir (path_join outdir (eid @ ''_'' @ stamp)) w"
  have g1: "dict_get cp ''mode'' (YStr ''simulated'') = Inr mode"
    using mode by (rule dict_item_get)
  have g2: "dict_get cp ''mode'' YNull = Inr mode"
    using mode by (rule dict_item_get)
  have gate: "bind_e (dict_item manifest ''capture_parameters'')
                (\<lambda>cp. dict_get cp ''mode'' (YStr ''simulated'')) = Inr mode"
    by (simp add: bind_e_def cp g1)
  have closed: "getenv e ''ALLOW_REAL_CAPTURE'' \<noteq> Some ''1'' \<longrightarrow>
      orchestrater_main e stamp run_at outdir manifest w = (Rejected, ?w1)"
  proof
    assume "getenv e ''ALLOW_REAL_CAPTURE'' \<noteq> Some ''1''"
    then have "(case getenv e ''ALLOW_REAL_CAPTURE'' of None \<Rightarrow> ''0'' | Some v \<Rightarrow> v) \<noteq> ''1''"
      by (auto split: option.splits)
    then show "orchestrater_main e stamp run_at outdir manifest w = (Rejected, ?w1)"
      using ns by (simp add: orchestrater_main_def eid gate Let_def)
  qed
  have opened: "getenv e ''ALLOW_REAL_CAPTURE'' = Some ''1''
            \<and> dict_item manifest ''stimulus'' = Inr st
            \<and> bind_e (dict_get st ''simulated_iq_file'' (YStr ''capture.iq'')) as_str = Inr name \<longrightarrow>
      orchestrater_main e stamp run_at outdir manifest w = (Raised NotImplementedError, ?w1)"
  proof
    assume h: "getenv e ''ALLOW_REAL_CAPTURE'' = Some ''1''
            \<and> dict_item manifest ''stimulus'' = Inr st
            \<and> bind_e (dict_get st ''simulated_iq_file'' (YStr ''capture.iq'')) as_str = Inr name"
    then obtain f where f: "dict_get st ''simulated_iq_file'' (YStr ''capture.iq'') = Inr f"
      and n: "as_str f = Inr name"
      by (auto simp: bind_e_def split: sum.splits)
    have "capture e run_at manifest (path_join outdir (eid @ ''_'' @ stamp)) ?w1
            = (Raised NotImplementedError, ?w1)"
      using h ns by (simp add: capture_def bind_e_def f n cp g2)
    then show "orchestrater_main e stamp run_at outdir manifest w = (Raised NotImplementedError, ?w1)"
      using h by (simp add: orchestrater_main_def eid gate Let_def)
  qed
  from closed opened show ?thesis
    by (simp only: ensure_dir_calls ensure_dir_files simp_thms)
qed

text \<open>
  C9: a run that ends rejected has made the run directory \<open>{outdir}/{run_id}\<close> (and the
  ancestors of it that were missing) and nothing else: the files are those of the start,
  none was written, and no child process was started.
\<close>

theorem rejected_run_leaves_directory:
  assumes "orchestrater_main e stamp run_at outdir manifest w = (Rejected, w')"
  shows "\<exists>eid. bind_e (dict_get manifest ''experiment_id'' (YStr ''run'')) as_str = Inr eid
     \<and> path_join outdir (eid @ ''_'' @ stamp) \<in> dirs (w_fs w')
     \<and> dirs (w_fs w') = dirs (w_fs w) \<union> set (ancestors (path_join outdir (eid @ ''_'' @ stamp)))
                          \<union> {path_join outdir (eid @ ''_'' @ stamp)}
     \<and> files (w_fs w') = files (w_fs w) \<and> calls w' = calls w"
proof (cases "bind_e (dict_get manifest ''experiment_id'' (YStr ''run'')) as_str")
  case (Inl err)
  with assms show ?thesis by (simp add: orchestrater_main_def)
next
  case (Inr eid)
  let ?d = "path_join outdir (eid @ ''_'' @ stamp)"
  have "w' = ensure_dir ?d w"
  proof (cases "bind_e (dict_item manifest ''capture_parameters'')
                  (\<lambda>cp. dict_get cp ''mode'' (YStr ''simulated''))")
    case (Inl err)
    with assms Inr show ?thesis by (simp add: orchestrater_main_def Let_def)
  next
    case m: (Inr mode)
    show ?thesis
    proof (cases "mode \<noteq> YStr ''simulated''
        \<and> (case getenv e ''ALLOW_REAL_CAPTURE'' of None \<Rightarrow> ''0'' | Some v \<Rightarrow> v) \<noteq> ''1''")
      case True
      from assms show ?thesis
        unfolding orchestrater_main_def Inr m Let_def using True by simp
    next
      case False
      from assms have "capture e run_at manifest ?d (ensure_dir ?d w) = (Rejected, w')"
        unfolding orchestrater_main_def Inr m Let_def using False by auto
      then have "fst (capture e run_at manifest ?d (ensure_dir ?d w)) = Rejected" by simp
      with capture_not_rejected show ?thesis by blast
    qed
  qed
  then show ?thesis
    using Inr by (simp add: ensure_dir_dirs ensure_dir_files ensure_dir_calls)
qed


lemma real_eid: "bind_e (dict_get real_manifest ''experiment_id'' (YStr ''run'')) as_str = Inr ''exp''"
  by (simp add: real_manifest_def bind_e_def)

lemma real_cp_item: "dict_item real_manifest ''capture_parameters'' = Inr real_cp"
  by (simp add: real_manifest_def)

lemma real_mode: "dict_item real_cp ''mode'' = Inr (YStr ''real'')"
  by (simp add: real_cp_def)

lemma real_stimulus:
  "dict_item real_manifest ''stimulus'' = Inr (YDict [(''tones'', YList [YDict demo_tone])])"
  by (simp add: real_manifest_def)

lemma real_iq_file:
  "bind_e (dict_get (YDict [(''tones'', YList [YDict demo_tone])]) ''simulated_iq_file'' (YStr ''capture.iq'')) as_str
   = Inr ''capture.iq''"
  by (simp add: bind_e_def)

lemma run_dir1_eq: "path_join ''runs'' (''exp'' @ ''_'' @ stamp1) = run_dir1"
  by (simp add: path_join_def stamp1_def run_dir1_def)

lemma real_rejected:
  "orchestrater_main closed_env stamp1 clock1 ''runs'' real_manifest fresh_world
   = (Rejected, ensure_dir run_dir1 fresh_world)"
proof -
  have g: "bind_e (dict_item real_manifest ''capture_parameters'')
             (\<lambda>cp. dict_get cp ''mode'' (YStr ''simulated'')) = Inr (YStr ''real'')"
    by (simp add: bind_e_def real_cp_item real_cp_def)
  have v: "getenv closed_env ''ALLOW_REAL_CAPTURE'' = None" by (simp add: closed_env_def)
  show ?thesis
    by (simp add: orchestrater_main_def real_eid g v Let_def run_dir1_eq del: append.simps)
qed

text \<open>A manifest of mode \<open>real\<close>, with the variable unset and with the variable set to \<open>1\<close>.\<close>

theorem gate_enforcement_witness:
  "bind_e (dict_get real_manifest ''experiment_id'' (YStr ''run'')) as_str = Inr ''exp''
   \<and> dict_item real_manifest ''capture_parameters'' = Inr real_cp
   \<and> dict_item real_cp ''mode'' = Inr (YStr ''real'')
   \<and> YStr ''real'' \<noteq> YStr ''simulated''
   \<and> getenv closed_env ''ALLOW_REAL_CAPTURE'' \<noteq> Some ''1''
   \<and> getenv open_env ''ALLOW_REAL_CAPTURE'' = Some ''1''
   \<and> orchestrater_main closed_env stamp1 clock1 ''runs'' real_manifest fresh_world
       = (Rejected, ensure_dir run_dir1 fresh_world)
   \<and> orchestrater_main open_env stamp1 clock1 ''runs'' real_manifest fresh_world
       = (Raised NotImplementedError, ensure_dir run_dir1 fresh_world)
   \<and> calls (ensure_dir run_dir1 fresh_world) = []
   \<and> files (w_fs (ensure_dir run_dir1 fresh_world)) = Map.empty"
proof -
  have ns: "YStr ''real'' \<noteq> YStr ''simulated''" by simp
  have c: "getenv closed_env ''ALLOW_REAL_CAPTURE'' \<noteq> Some ''1''" by (simp add: closed_env_def)
  have "getenv open_env ''ALLOW_REAL_CAPTURE'' = Some ''1''" by (simp add: open_env_def)
  then have ob: "getenv open_env ''ALLOW_REAL_CAPTURE'' = Some ''1''
      \<and> dict_item real_manifest ''stimulus'' = Inr (YDict [(''tones'', YList [YDict demo_tone])])
      \<and> bind_e (dict_get (YDict [(''tones'', YList [YDict demo_tone])]) ''simulated_iq_file'' (YStr ''capture.iq'')) as_str
          = Inr ''capture.iq''"
    using real_stimulus real_iq_file by blast
  note t1 = gate_enforcement[OF real_eid real_cp_item real_mode ns,
      where e = closed_env and stamp = stamp1 and run_at = clock1 and outdir = "''runs''"
        and w = fresh_world, unfolded run_dir1_eq]
  note t2 = gate_enforcement[OF real_eid real_cp_item real_mode ns,
      where e = open_env and st = "YDict [(''tones'', YList [YDict demo_tone])]"
        and name = "''capture.iq''" and stamp = stamp1 and run_at = clock1
        and outdir = "''runs''" and w = fresh_world, unfolded run_dir1_eq]
  from t1 c have r1: "orchestrater_main closed_env stamp1 clock1 ''runs'' real_manifest fresh_world
       = (Rejected, ensure_dir run_dir1 fresh_world)" by blast
  from t2 ob have r2: "orchestrater_main open_env stamp1 clock1 ''runs'' real_manifest fresh_world
       = (Raised NotImplementedError, ensure_dir run_dir1 fresh_world)" by blast
  from t1 have r3: "calls (ensure_dir run_dir1 fresh_world) = []"
    by (simp add: fresh_world_def)
  from t1 have r4: "files (w_fs (ensure_dir run_dir1 fresh_world)) = Map.empty"
    by (simp add: fresh_world_def empty_fs_def)
  from real_eid real_cp_item real_mode ns c ob r1 r2 r3 r4 show ?thesis by blast
qed

text \<open>On an empty file system the rejected run leaves the run directory and no file.\<close>

theorem rejected_run_leaves_directory_witness:
  "orchestrater_main closed_env stamp1 clock1 ''runs'' real_manifest fresh_world
     = (Rejected, ensure_dir run_dir1 fresh_world)
   \<and> run_dir1 \<in> dirs (w_fs (ensure_dir run_dir1 fresh_world))
   \<and> files (w_fs (ensure_dir run_dir1 fresh_world)) = Map.empty
   \<and> calls (ensure_dir run_dir1 fresh_world) = []"
proof -
  from rejected_run_leaves_directory[OF real_rejected] obtain eid where
    e: "bind_e (dict_get real_manifest ''experiment_id'' (YStr ''run'')) as_str = Inr eid"
    and d: "path_join ''runs'' (eid @ ''_'' @ stamp1) \<in> dirs (w_fs (ensure_dir run_dir1 fresh_world))"
    and f: "files (w_fs (ensure_dir run_dir1 fresh_world)) = files (w_fs fresh_world)"
    and c: "calls (ensure_dir run_dir1 fresh_world) = calls fresh_world"
    by blast
  from e have "eid = ''exp''" unfolding real_eid by simp
  with d have d': "run_dir1 \<in> dirs (w_fs (ensure_dir run_dir1 fresh_world))"
    using run_dir1_eq by simp
  from f have f': "files (w_fs (ensure_dir run_dir1 fresh_world)) = Map.empty"
    by (simp add: fresh_world_def empty_fs_def)
  from c have c': "calls (ensure_dir run_dir1 fresh_world) = []"
    by (simp add: fresh_world_def)
  from real_rejected d' f' c' show ?thesis by blast
qed

end
